theory Spec2Isabelle
  imports Main
begin

section \<open>The persisted tables\<close>

text \<open>
  The scripts work on the SQLite file \<^verbatim>\<open>famflix.db\<close>. A table is the list of its rows
  in storage order; a nullable column is an \<open>option\<close>; timestamps are integers
  (milliseconds, \<^verbatim>\<open>int(time.time() * 1000)\<close>). Every script runs inside one
  \<^verbatim>\<open>try\<close> block that prints a failure of the database itself; the table is a value
  here, so that branch has no counterpart.
\<close>

text \<open>
  Modelled from the spec: the status enumeration of the job record. The table
  declarations are not among the sources; the scripts only write the literals
  \<^verbatim>\<open>'PROCESSING'\<close>, \<^verbatim>\<open>'COMPLETE'\<close> and \<^verbatim>\<open>'ERROR'\<close>.
\<close>

datatype status = PENDING | PROCESSING | COMPLETE | ERROR

text \<open>
  Modelled from the spec: the columns of \<^verbatim>\<open>story_audio\<close> that the scripts read and
  write, with the nullability of the spec's conceptual schema (\<open>voice_id\<close> is nullable
  for narration chunks only).
\<close>

record story_audio =
  section_id :: string
  voice_id :: string
  status :: status
  audio_url :: "string option"
  error :: "string option"
  created_at :: int
  updated_at :: int
  completed_at :: "int option"

text \<open>The columns of \<^verbatim>\<open>story_sections\<close> used by the joins.\<close>

record story_section =
  ss_id :: string
  ss_story_id :: string
  section_index :: int

text \<open>
  The columns of \<^verbatim>\<open>story_narrations\<close> selected by \<^verbatim>\<open>check_story_narrations.py\<close>; the
  second version of that script names the index column \<^verbatim>\<open>chunk_index\<close>.
\<close>

record story_narration =
  sn_id :: string
  sn_story_id :: string
  sn_index :: int
  sn_status :: status
  sn_audio_url :: "string option"
  sn_error :: "string option"
  sn_created_at :: int
  sn_updated_at :: int

section \<open>Force-complete: \<^verbatim>\<open>recover_audio.py\<close>\<close>

text \<open>
  \<^verbatim>\<open>SELECT voice_id FROM story_audio WHERE section_id = ? AND status = 'PROCESSING'\<close>
  followed by \<^verbatim>\<open>fetchone()\<close>: the voice of the first matching row, or nothing.
\<close>

fun select_processing_voice :: "string \<Rightarrow> story_audio list \<Rightarrow> string option" where
  "select_processing_voice sec [] = None"
| "select_processing_voice sec (r # rs) =
     (if section_id r = sec \<and> status r = PROCESSING then Some (voice_id r)
      else select_processing_voice sec rs)"

text \<open>
  \<^verbatim>\<open>UPDATE story_audio SET status = 'COMPLETE', audio_url = ?, updated_at = ?,
  completed_at = ? WHERE section_id = ? AND voice_id = ?\<close>
\<close>

definition complete_row :: "string \<Rightarrow> int \<Rightarrow> story_audio \<Rightarrow> story_audio" where
  "complete_row url now r =
     r\<lparr>status := COMPLETE, audio_url := Some url, updated_at := now, completed_at := Some now\<rparr>"

definition update_complete ::
  "string \<Rightarrow> int \<Rightarrow> string \<Rightarrow> string \<Rightarrow> story_audio list \<Rightarrow> story_audio list" where
  "update_complete url now sec v tbl =
     map (\<lambda>r. if section_id r = sec \<and> voice_id r = v then complete_row url now r else r) tbl"

text \<open>What the script prints: no processing entry, or the voice it found and updated.\<close>

datatype recover_report = NoProcessingEntry | Recovered string

text \<open>
  The script: the read, then (if a row was found) the write with the voice that was
  read. The section and the artifact location are hard-coded in the script and are
  parameters here, as is the clock value \<open>now\<close>.
\<close>

definition recover_audio ::
  "string \<Rightarrow> int \<Rightarrow> string \<Rightarrow> story_audio list \<Rightarrow> recover_report \<times> story_audio list" where
  "recover_audio url now sec tbl =
     (case select_processing_voice sec tbl of
        None \<Rightarrow> (NoProcessingEntry, tbl)
      | Some v \<Rightarrow> (Recovered v, update_complete url now sec v tbl))"

text \<open>
  The same script when another connection commits between its \<^verbatim>\<open>SELECT\<close> and its
  \<^verbatim>\<open>UPDATE\<close>: \<open>worker\<close> is what that connection does to the table. The script does not
  read the row again before writing.
\<close>

definition recover_audio_raced ::
  "string \<Rightarrow> int \<Rightarrow> string \<Rightarrow> (story_audio list \<Rightarrow> story_audio list) \<Rightarrow> story_audio list
     \<Rightarrow> recover_report \<times> story_audio list" where
  "recover_audio_raced url now sec worker tbl =
     (case select_processing_voice sec tbl of
        None \<Rightarrow> (NoProcessingEntry, worker tbl)
      | Some v \<Rightarrow> (Recovered v, update_complete url now sec v (worker tbl)))"

section \<open>Force-fail: \<^verbatim>\<open>reset_stuck_audio.py\<close>\<close>

text \<open>
  \<^verbatim>\<open>SELECT sa.section_id FROM story_audio sa JOIN story_sections ss
  ON sa.section_id = ss.id WHERE ss.story_id = ? AND sa.status = 'PROCESSING'\<close>:
  one result row for each pair of an audio row and a section row that satisfies the
  conditions, as a nested loop over \<^verbatim>\<open>story_audio\<close>.
\<close>

definition select_stuck :: "string \<Rightarrow> story_section list \<Rightarrow> story_audio list \<Rightarrow> string list" where
  "select_stuck story secs tbl =
     concat (map (\<lambda>sa. map (\<lambda>ss. section_id sa)
        (filter (\<lambda>ss. section_id sa = ss_id ss \<and> ss_story_id ss = story \<and> status sa = PROCESSING)
           secs)) tbl)"

definition admin_message :: string where
  "admin_message = ''Processing timed out (reset by admin)''"

text \<open>
  \<^verbatim>\<open>UPDATE story_audio SET status = 'ERROR', error = 'Processing timed out (reset by
  admin)', updated_at = ? WHERE section_id = ?\<close>
\<close>

definition fail_row :: "int \<Rightarrow> story_audio \<Rightarrow> story_audio" where
  "fail_row now r = r\<lparr>status := ERROR, error := Some admin_message, updated_at := now\<rparr>"

definition update_error :: "int \<Rightarrow> string \<Rightarrow> story_audio list \<Rightarrow> story_audio list" where
  "update_error now sec tbl = map (\<lambda>r. if section_id r = sec then fail_row now r else r) tbl"

text \<open>
  The loop over the selected rows; the clock is read once in each iteration, \<open>clock k\<close>
  being the value read in iteration \<open>k\<close>. The story is hard-coded in the script and is
  a parameter here; the script commits once, after the loop.
\<close>

fun reset_loop :: "(nat \<Rightarrow> int) \<Rightarrow> nat \<Rightarrow> string list \<Rightarrow> story_audio list \<Rightarrow> story_audio list" where
  "reset_loop clock k [] tbl = tbl"
| "reset_loop clock k (sec # rest) tbl = reset_loop clock (Suc k) rest (update_error (clock k) sec tbl)"

datatype reset_report = NoStuckEntries | ResetSections "string list"

definition reset_stuck_audio ::
  "(nat \<Rightarrow> int) \<Rightarrow> string \<Rightarrow> story_section list \<Rightarrow> story_audio list
     \<Rightarrow> reset_report \<times> story_audio list" where
  "reset_stuck_audio clock story secs tbl =
     (let rows = select_stuck story secs tbl in
      if rows = [] then (NoStuckEntries, tbl)
      else (ResetSections rows, reset_loop clock 0 rows tbl))"



section \<open>The query scripts\<close>

text \<open>
  \<^verbatim>\<open>check_story_audio.py\<close>:
  \<^verbatim>\<open>SELECT sa.section_id, sa.voice_id, sa.status, sa.audio_url, sa.created_at,
  sa.updated_at FROM story_audio sa JOIN story_sections ss ON sa.section_id = ss.id
  WHERE ss.story_id = ?\<close>. The statement has no \<^verbatim>\<open>ORDER BY\<close>; the rows come in the order
  of the nested loop over \<^verbatim>\<open>story_audio\<close>.
\<close>

type_synonym audio_entry = "string \<times> string \<times> status \<times> string option \<times> int \<times> int"

definition audio_entry :: "story_audio \<Rightarrow> audio_entry" where
  "audio_entry sa =
     (section_id sa, voice_id sa, status sa, audio_url sa, created_at sa, updated_at sa)"

definition check_story_audio ::
  "string \<Rightarrow> story_section list \<Rightarrow> story_audio list \<Rightarrow> audio_entry list" where
  "check_story_audio story secs tbl =
     concat (map (\<lambda>sa. map (\<lambda>ss. audio_entry sa)
        (filter (\<lambda>ss. section_id sa = ss_id ss \<and> ss_story_id ss = story) secs)) tbl)"

text \<open>
  \<^verbatim>\<open>check_story_narrations.py\<close>:
  \<^verbatim>\<open>SELECT id, section_index, status, audio_url, error, created_at, updated_at
  FROM story_narrations WHERE story_id = ? ORDER BY section_index ASC\<close>
  (\<^verbatim>\<open>chunk_index\<close> in the second version). Rows with equal index keep their storage
  order.
\<close>

type_synonym narration_entry =
  "string \<times> int \<times> status \<times> string option \<times> string option \<times> int \<times> int"

definition narration_entry :: "story_narration \<Rightarrow> narration_entry" where
  "narration_entry n =
     (sn_id n, sn_index n, sn_status n, sn_audio_url n, sn_error n, sn_created_at n,
      sn_updated_at n)"

definition entry_index :: "narration_entry \<Rightarrow> int" where
  "entry_index e = fst (snd e)"

definition check_story_narrations :: "string \<Rightarrow> story_narration list \<Rightarrow> narration_entry list" where
  "check_story_narrations story tbl =
     map narration_entry (sort_key sn_index (filter (\<lambda>n. sn_story_id n = story) tbl))"

section \<open>Keys, invariants and the specified operations\<close>

text \<open>The key of a job row: the section and the voice.\<close>

definition job_key :: "story_audio \<Rightarrow> string \<times> string" where
  "job_key r = (section_id r, voice_id r)"

definition non_terminal :: "status \<Rightarrow> bool" where
  "non_terminal s = (s = PENDING \<or> s = PROCESSING)"

text \<open>At most one non-terminal job for each key.\<close>

definition one_active_per_key :: "story_audio list \<Rightarrow> bool" where
  "one_active_per_key tbl = distinct (map job_key (filter (\<lambda>r. non_terminal (status r)) tbl))"

text \<open>
  The field discipline of the job record: \<open>audio_url\<close> only on a COMPLETE row, \<open>error\<close>
  only on an ERROR row.
\<close>

definition fields_match_status :: "story_audio \<Rightarrow> bool" where
  "fields_match_status r =
     ((audio_url r = None \<or> status r = COMPLETE) \<and> (error r = None \<or> status r = ERROR))"

text \<open>
  The section of a job row belongs to the story: the join condition of the stuck-entry
  query without the status test.
\<close>

definition in_story :: "string \<Rightarrow> story_section list \<Rightarrow> story_audio \<Rightarrow> bool" where
  "in_story story secs sa =
     list_ex (\<lambda>ss. section_id sa = ss_id ss \<and> ss_story_id ss = story) secs"

text \<open>
  The detector in the words of the specification: the jobs with status PROCESSING and
  \<open>now - updated_at > timeout\<close>.
\<close>

definition findStuck_spec :: "int \<Rightarrow> int \<Rightarrow> story_audio list \<Rightarrow> story_audio list" where
  "findStuck_spec timeout now tbl =
     filter (\<lambda>r. status r = PROCESSING \<and> now - updated_at r > timeout) tbl"

text \<open>
  Modelled from the spec: \<open>create\<close> of the Job Store. No script of the sources inserts a
  job row. It fails with \<open>DuplicateActiveJob\<close> if a non-terminal job already exists for
  the key; otherwise it starts a new record in PENDING and keeps the earlier (terminal)
  records as history.
\<close>

datatype store_error = DuplicateActiveJob

definition has_active :: "string \<Rightarrow> string \<Rightarrow> story_audio list \<Rightarrow> bool" where
  "has_active target v tbl =
     list_ex (\<lambda>r. section_id r = target \<and> voice_id r = v \<and> non_terminal (status r)) tbl"

definition new_job :: "int \<Rightarrow> string \<Rightarrow> string \<Rightarrow> story_audio" where
  "new_job now target v =
     \<lparr>section_id = target, voice_id = v, status = PENDING, audio_url = None, error = None,
      created_at = now, updated_at = now, completed_at = None\<rparr>"

definition create ::
  "int \<Rightarrow> string \<Rightarrow> string \<Rightarrow> story_audio list \<Rightarrow> store_error + story_audio \<times> story_audio list" where
  "create now target v tbl =
     (if has_active target v tbl then Inl DuplicateActiveJob
      else Inr (new_job now target v, tbl @ [new_job now target v]))"

section \<open>Scenarios\<close>

text \<open>
  The job of the specification's scenario: created at \<open>t = 0\<close>, PROCESSING since
  \<open>t = 1\<close>, never updated again; and the section it belongs to.
\<close>

definition stuck_job :: story_audio where
  "stuck_job =
     \<lparr>section_id = ''sec-1'', voice_id = ''v-1'', status = PROCESSING, audio_url = None,
      error = None, created_at = 0, updated_at = 1, completed_at = None\<rparr>"

definition sec_1 :: story_section where
  "sec_1 = \<lparr>ss_id = ''sec-1'', ss_story_id = ''story-1'', section_index = 0\<rparr>"

text \<open>A job of the same section under another voice that has completed.\<close>

definition done_job :: story_audio where
  "done_job =
     \<lparr>section_id = ''sec-1'', voice_id = ''v-2'', status = COMPLETE,
      audio_url = Some ''/audio/y.wav'', error = None, created_at = 0, updated_at = 2,
      completed_at = Some 2\<rparr>"


text \<open>A job of the same section under another voice that a worker has failed.\<close>

definition failed_job :: story_audio where
  "failed_job =
     \<lparr>section_id = ''sec-1'', voice_id = ''v-2'', status = ERROR, audio_url = None,
      error = Some ''synthesis failed'', created_at = 0, updated_at = 2, completed_at = Some 2\<rparr>"


text \<open>A story with three sections, and the jobs of its sections in storage order.\<close>

definition three_sections :: "story_section list" where
  "three_sections =
     [sec_1, \<lparr>ss_id = ''sec-2'', ss_story_id = ''story-1'', section_index = 1\<rparr>,
      \<lparr>ss_id = ''sec-3'', ss_story_id = ''story-1'', section_index = 2\<rparr>]"

definition three_section_jobs :: "story_audio list" where
  "three_section_jobs =
     [stuck_job\<lparr>section_id := ''sec-3''\<rparr>, stuck_job, done_job, stuck_job\<lparr>section_id := ''sec-2''\<rparr>]"

text \<open>Three narration chunks of a story, stored in the order they were created.\<close>

definition chunk :: "string \<Rightarrow> int \<Rightarrow> int \<Rightarrow> story_narration" where
  "chunk ident idx created =
     \<lparr>sn_id = ident, sn_story_id = ''story-1'', sn_index = idx, sn_status = COMPLETE,
      sn_audio_url = None, sn_error = None, sn_created_at = created, sn_updated_at = created\<rparr>"

definition three_chunks :: "story_narration list" where
  "three_chunks = [chunk ''n-c'' 2 10, chunk ''n-a'' 0 11, chunk ''n-b'' 1 12]"

section \<open>Force-complete on the selected job\<close>

lemma select_processing_voice_SomeD:
  "select_processing_voice sec tbl = Some v \<Longrightarrow>
     \<exists>r \<in> set tbl. section_id r = sec \<and> status r = PROCESSING \<and> voice_id r = v"
  by (induction tbl) (auto split: if_splits)

lemma select_processing_voice_None_iff:
  "select_processing_voice sec tbl = None \<longleftrightarrow>
     (\<forall>r \<in> set tbl. \<not> (section_id r = sec \<and> status r = PROCESSING))"
  by (induction tbl) auto

lemma length_update_complete [simp]: "length (update_complete url now sec v tbl) = length tbl"
  by (simp add: update_complete_def)

lemma nth_update_complete:
  "i < length tbl \<Longrightarrow> update_complete url now sec v tbl ! i =
     (if section_id (tbl ! i) = sec \<and> voice_id (tbl ! i) = v
      then complete_row url now (tbl ! i) else tbl ! i)"
  by (simp add: update_complete_def)

text \<open>
  Claim C3 as stated fails: force-complete is invoked on a section and completes the
  job of one voice only. With two voices of a section PROCESSING, the job of the voice
  the script did not read is still PROCESSING afterwards, without location and without
  \<open>completed_at\<close>.
\<close>

theorem force_complete_one_voice_counterexample:
  "status ([stuck_job, stuck_job\<lparr>voice_id := ''v-2''\<rparr>] ! 1) = PROCESSING
   \<and> fst (recover_audio ''/audio/x.wav'' 301 ''sec-1'' [stuck_job, stuck_job\<lparr>voice_id := ''v-2''\<rparr>])
       = Recovered ''v-1''
   \<and> status (snd (recover_audio ''/audio/x.wav'' 301 ''sec-1''
         [stuck_job, stuck_job\<lparr>voice_id := ''v-2''\<rparr>]) ! 1) = PROCESSING
   \<and> audio_url (snd (recover_audio ''/audio/x.wav'' 301 ''sec-1''
         [stuck_job, stuck_job\<lparr>voice_id := ''v-2''\<rparr>]) ! 1) = None
   \<and> completed_at (snd (recover_audio ''/audio/x.wav'' 301 ''sec-1''
         [stuck_job, stuck_job\<lparr>voice_id := ''v-2''\<rparr>]) ! 1) = None"
  by (simp add: recover_audio_def update_complete_def stuck_job_def)

text \<open>
  Claim C3, amended. Force-complete on a section that has a PROCESSING job reads the
  voice of one such job. Every job of the section under that voice, the job it read
  among them, then has status COMPLETE, the artifact location as \<open>audio_url\<close> and the
  current time as \<open>completed_at\<close> (and \<open>updated_at\<close>), with its key unchanged; a job
  under another voice is left as it was, also when it is PROCESSING.
\<close>

theorem force_complete_sets_fields:
  assumes "select_processing_voice sec tbl = Some v"
  shows "fst (recover_audio url now sec tbl) = Recovered v
    \<and> (\<exists>i < length tbl. section_id (tbl ! i) = sec \<and> voice_id (tbl ! i) = v
          \<and> status (tbl ! i) = PROCESSING)
    \<and> (\<forall>i < length tbl. section_id (tbl ! i) = sec \<and> voice_id (tbl ! i) = v \<longrightarrow>
          status (snd (recover_audio url now sec tbl) ! i) = COMPLETE
          \<and> audio_url (snd (recover_audio url now sec tbl) ! i) = Some url
          \<and> completed_at (snd (recover_audio url now sec tbl) ! i) = Some now
          \<and> updated_at (snd (recover_audio url now sec tbl) ! i) = now
          \<and> section_id (snd (recover_audio url now sec tbl) ! i) = sec
          \<and> voice_id (snd (recover_audio url now sec tbl) ! i) = v)
    \<and> (\<forall>i < length tbl. voice_id (tbl ! i) \<noteq> v \<longrightarrow>
          snd (recover_audio url now sec tbl) ! i = tbl ! i)"
proof -
  have new: "recover_audio url now sec tbl = (Recovered v, update_complete url now sec v tbl)"
    using assms by (simp add: recover_audio_def)
  obtain r where "r \<in> set tbl" "section_id r = sec" "status r = PROCESSING" "voice_id r = v"
    using select_processing_voice_SomeD [OF assms] by blast
  then have ex: "\<exists>i < length tbl. section_id (tbl ! i) = sec \<and> voice_id (tbl ! i) = v
      \<and> status (tbl ! i) = PROCESSING"
    by (auto simp add: in_set_conv_nth)
  have written: "\<forall>i < length tbl. section_id (tbl ! i) = sec \<and> voice_id (tbl ! i) = v \<longrightarrow>
      status (update_complete url now sec v tbl ! i) = COMPLETE
      \<and> audio_url (update_complete url now sec v tbl ! i) = Some url
      \<and> completed_at (update_complete url now sec v tbl ! i) = Some now
      \<and> updated_at (update_complete url now sec v tbl ! i) = now
      \<and> section_id (update_complete url now sec v tbl ! i) = sec
      \<and> voice_id (update_complete url now sec v tbl ! i) = v"
    by (simp add: nth_update_complete complete_row_def)
  have other: "\<forall>i < length tbl. voice_id (tbl ! i) \<noteq> v \<longrightarrow>
      update_complete url now sec v tbl ! i = tbl ! i"
    by (simp add: nth_update_complete)
  show ?thesis
    unfolding new fst_conv snd_conv using ex written other by (intro conjI refl)
qed

theorem force_complete_sets_fields_witness:
  "select_processing_voice ''sec-1'' [done_job, stuck_job] = Some ''v-1''
   \<and> status (snd (recover_audio ''/audio/x.wav'' 301 ''sec-1'' [done_job, stuck_job]) ! 1) = COMPLETE
   \<and> audio_url (snd (recover_audio ''/audio/x.wav'' 301 ''sec-1'' [done_job, stuck_job]) ! 1)
       = Some ''/audio/x.wav''
   \<and> completed_at (snd (recover_audio ''/audio/x.wav'' 301 ''sec-1'' [done_job, stuck_job]) ! 1)
       = Some 301
   \<and> snd (recover_audio ''/audio/x.wav'' 301 ''sec-1'' [done_job, stuck_job]) ! 0 = done_job"
proof -
  have sel: "select_processing_voice ''sec-1'' [done_job, stuck_job] = Some ''v-1''"
    by (simp add: done_job_def stuck_job_def)
  note t = force_complete_sets_fields [OF sel, of "''/audio/x.wav''" 301]
  have row1: "(1::nat) < length [done_job, stuck_job]
      \<and> section_id ([done_job, stuck_job] ! 1) = ''sec-1''
      \<and> voice_id ([done_job, stuck_job] ! 1) = ''v-1''"
    by (simp add: stuck_job_def)
  have row0: "(0::nat) < length [done_job, stuck_job] \<and> voice_id ([done_job, stuck_job] ! 0) \<noteq> ''v-1''"
    by (simp add: done_job_def)
  have a: "status (snd (recover_audio ''/audio/x.wav'' 301 ''sec-1'' [done_job, stuck_job]) ! 1) = COMPLETE
      \<and> audio_url (snd (recover_audio ''/audio/x.wav'' 301 ''sec-1'' [done_job, stuck_job]) ! 1)
          = Some ''/audio/x.wav''
      \<and> completed_at (snd (recover_audio ''/audio/x.wav'' 301 ''sec-1'' [done_job, stuck_job]) ! 1)
          = Some 301"
    using row1 t [THEN conjunct2, THEN conjunct2, THEN conjunct1] by blast
  have b: "snd (recover_audio ''/audio/x.wav'' 301 ''sec-1'' [done_job, stuck_job]) ! 0 = done_job"
    using row0 t [THEN conjunct2, THEN conjunct2, THEN conjunct2] by fastforce
  from sel a b show ?thesis by (intro conjI) simp_all
qed

section \<open>The rows written by force-fail\<close>

lemma length_update_error [simp]: "length (update_error now sec tbl) = length tbl"
  by (simp add: update_error_def)

lemma nth_update_error:
  "i < length tbl \<Longrightarrow> update_error now sec tbl ! i =
     (if section_id (tbl ! i) = sec then fail_row now (tbl ! i) else tbl ! i)"
  by (simp add: update_error_def)

lemma fail_row_fail_row [simp]: "fail_row t2 (fail_row t1 r) = fail_row t2 r"
  by (simp add: fail_row_def)

lemma section_id_fail_row [simp]: "section_id (fail_row t r) = section_id r"
  by (simp add: fail_row_def)

lemma length_reset_loop [simp]: "length (reset_loop clock k rows tbl) = length tbl"
  by (induction rows arbitrary: k tbl) simp_all

lemma reset_loop_untouched:
  "i < length tbl \<Longrightarrow> section_id (tbl ! i) \<notin> set rows \<Longrightarrow>
     reset_loop clock k rows tbl ! i = tbl ! i"
  by (induction rows arbitrary: k tbl) (auto simp add: nth_update_error)

lemma reset_loop_touched:
  "i < length tbl \<Longrightarrow> section_id (tbl ! i) \<in> set rows \<Longrightarrow>
     \<exists>j < length rows. reset_loop clock k rows tbl ! i = fail_row (clock (k + j)) (tbl ! i)"
proof (induction rows arbitrary: k tbl)
  case Nil
  then show ?case by simp
next
  case (Cons sec rest)
  let ?tbl1 = "update_error (clock k) sec tbl"
  have len: "i < length ?tbl1" using Cons.prems(1) by simp
  have sid: "section_id (?tbl1 ! i) = section_id (tbl ! i)"
    using Cons.prems(1) by (simp add: nth_update_error)
  show ?case
  proof (cases "section_id (tbl ! i) \<in> set rest")
    case True
    then obtain j where j: "j < length rest"
      and eq: "reset_loop clock (Suc k) rest ?tbl1 ! i = fail_row (clock (Suc k + j)) (?tbl1 ! i)"
      using Cons.IH [OF len, of "Suc k"] sid by auto
    have "fail_row (clock (Suc k + j)) (?tbl1 ! i) = fail_row (clock (Suc k + j)) (tbl ! i)"
      using Cons.prems(1) by (simp add: nth_update_error)
    with eq j show ?thesis by (intro exI [of _ "Suc j"]) simp
  next
    case False
    then have here: "section_id (tbl ! i) = sec" using Cons.prems(2) by simp
    have "reset_loop clock (Suc k) rest ?tbl1 ! i = ?tbl1 ! i"
      using reset_loop_untouched [OF len] False sid by simp
    also have "\<dots> = fail_row (clock k) (tbl ! i)"
      using Cons.prems(1) here by (simp add: nth_update_error)
    finally show ?thesis by (intro exI [of _ 0]) simp
  qed
qed

lemma reset_loop_completed_at:
  "map completed_at (reset_loop clock k rows tbl) = map completed_at tbl"
  by (induction rows arbitrary: k tbl) (simp_all add: update_error_def fail_row_def comp_def)

lemma select_stuck_iff:
  "s \<in> set (select_stuck story secs tbl) \<longleftrightarrow>
     (\<exists>sa \<in> set tbl. section_id sa = s \<and> status sa = PROCESSING \<and> in_story story secs sa)"
  unfolding select_stuck_def in_story_def list_ex_iff by fastforce

text \<open>
  Claim C2, evaluated on the scenario of the specification (job created at \<open>t = 0\<close>,
  PROCESSING since \<open>t = 1\<close>, force-fail at \<open>t = 301\<close>): the row gets status ERROR,
  the administrative message and \<open>updated_at = 301\<close>, but its \<open>completed_at\<close> stays
  empty; the \<^verbatim>\<open>UPDATE\<close> of the script does not assign that column.
\<close>

theorem force_fail_scenario_leaves_completed_at:
  "reset_stuck_audio (\<lambda>k. 301) ''story-1'' [sec_1] [stuck_job] =
     (ResetSections [''sec-1''],
      [stuck_job\<lparr>status := ERROR, error := Some ''Processing timed out (reset by admin)'',
         updated_at := 301\<rparr>])
   \<and> completed_at (hd (snd (reset_stuck_audio (\<lambda>k. 301) ''story-1'' [sec_1] [stuck_job]))) = None"
  by (simp add: reset_stuck_audio_def select_stuck_def update_error_def fail_row_def
      admin_message_def stuck_job_def sec_1_def)

text \<open>Force-fail never assigns \<open>completed_at\<close>, on any table.\<close>

lemma reset_stuck_audio_completed_at:
  "map completed_at (snd (reset_stuck_audio clock story secs tbl)) = map completed_at tbl"
  by (simp add: reset_stuck_audio_def Let_def reset_loop_completed_at)

section \<open>The stuck-entry query\<close>

lemma join_one_section:
  "distinct (map ss_id secs) \<Longrightarrow>
     map (\<lambda>ss. x) (filter (\<lambda>ss. a = ss_id ss \<and> P ss) secs) =
       (if list_ex (\<lambda>ss. a = ss_id ss \<and> P ss) secs then [x] else [])"
proof (induction secs)
  case Nil
  then show ?case by simp
next
  case (Cons s rest)
  then have "a = ss_id s \<Longrightarrow> filter (\<lambda>ss. a = ss_id ss \<and> P ss) rest = []"
    by (auto simp add: filter_empty_conv)
  with Cons show ?case by (auto simp add: list_ex_iff)
qed

lemma select_stuck_as_filter:
  assumes "distinct (map ss_id secs)"
  shows "select_stuck story secs tbl =
    map section_id (filter (\<lambda>sa. status sa = PROCESSING \<and> in_story story secs sa) tbl)"
proof -
  have one: "map (\<lambda>ss. section_id sa)
        (filter (\<lambda>ss. section_id sa = ss_id ss \<and> ss_story_id ss = story \<and> status sa = PROCESSING) secs)
      = (if status sa = PROCESSING \<and> in_story story secs sa then [section_id sa] else [])" for sa
    using join_one_section [OF assms, of "section_id sa" "section_id sa"
        "\<lambda>ss. ss_story_id ss = story \<and> status sa = PROCESSING"]
    by (auto simp add: in_story_def list_ex_iff)
  show ?thesis
    unfolding select_stuck_def one by (induction tbl) simp_all
qed

lemma select_stuck_updated_at:
  "select_stuck story secs (map (\<lambda>r. r\<lparr>updated_at := f r\<rparr>) tbl) = select_stuck story secs tbl"
  by (simp add: select_stuck_def comp_def)

text \<open>
  Claim C4 as stated fails: the query of the script has no timeout. In the scenario
  with \<open>now = 301\<close> and \<open>timeout = 300\<close>, a PROCESSING job with
  \<open>updated_at = now - timeout + 1\<close> is not stuck in the words of the specification,
  and the query returns it.
\<close>

theorem select_stuck_timeout_counterexample:
  "updated_at (stuck_job\<lparr>updated_at := 2\<rparr>) = 301 - 300 + 1
   \<and> findStuck_spec 300 301 [stuck_job\<lparr>updated_at := 2\<rparr>] = []
   \<and> select_stuck ''story-1'' [sec_1] [stuck_job\<lparr>updated_at := 2\<rparr>] = [''sec-1'']"
  by (simp add: findStuck_spec_def select_stuck_def stuck_job_def sec_1_def)

text \<open>
  Claim C4, amended. The query takes a story and no timeout. With unique section ids
  it returns the \<open>section_id\<close> of exactly the job rows with status PROCESSING whose
  section belongs to the story, in storage order; the result does not depend on any
  \<open>updated_at\<close>; and the query writes nothing: when it returns no row the script
  leaves the table as it is.
\<close>

theorem select_stuck_exact:
  assumes "distinct (map ss_id secs)"
  shows "select_stuck story secs tbl =
      map section_id (filter (\<lambda>sa. status sa = PROCESSING \<and> in_story story secs sa) tbl)
    \<and> select_stuck story secs (map (\<lambda>r. r\<lparr>updated_at := f r\<rparr>) tbl) = select_stuck story secs tbl
    \<and> (select_stuck story secs tbl = [] \<longrightarrow>
         reset_stuck_audio clock story secs tbl = (NoStuckEntries, tbl))"
  using select_stuck_as_filter [OF assms] select_stuck_updated_at
  by (simp add: reset_stuck_audio_def)

theorem select_stuck_exact_witness:
  "distinct (map ss_id [sec_1])
   \<and> select_stuck ''story-1'' [sec_1] [done_job, stuck_job\<lparr>updated_at := 301 - 300 - 1\<rparr>] = [''sec-1'']
   \<and> select_stuck ''story-1'' [sec_1] [done_job, stuck_job\<lparr>updated_at := 301 - 300 + 1\<rparr>] = [''sec-1'']
   \<and> reset_stuck_audio (\<lambda>k. 301) ''story-1'' [sec_1] [done_job] = (NoStuckEntries, [done_job])"
proof -
  have d: "distinct (map ss_id [sec_1])" by simp
  have "select_stuck ''story-1'' [sec_1] [done_job] = []"
    using select_stuck_exact [OF d, of "''story-1''" "[done_job]"]
    by (simp add: done_job_def in_story_def sec_1_def)
  then show ?thesis
    using select_stuck_exact [OF d, of "''story-1''" "[done_job]" _ "\<lambda>k. 301"]
      select_stuck_exact [OF d, of "''story-1''" "[done_job, stuck_job\<lparr>updated_at := 301 - 300 - 1\<rparr>]"]
      select_stuck_exact [OF d, of "''story-1''" "[done_job, stuck_job\<lparr>updated_at := 301 - 300 + 1\<rparr>]"]
    by (simp add: done_job_def stuck_job_def in_story_def sec_1_def)
qed

section \<open>The frame of force-complete\<close>

lemma complete_row_changes:
  "status r = PROCESSING \<Longrightarrow> complete_row url now r \<noteq> r"
proof
  assume p: "status r = PROCESSING" and "complete_row url now r = r"
  then have "status (complete_row url now r) = PROCESSING" by simp
  then show False by (simp add: complete_row_def)
qed

text \<open>
  Claim C10. Force-complete takes no voice from its caller: it reads the voice of a
  stored PROCESSING row of the section, writes the rows with that section and that
  voice and leaves every other row as it was, also when other voices of the section are
  PROCESSING; when the pair of section and voice is a key of the table, exactly one
  row changes.
\<close>

theorem force_complete_frame:
  assumes "select_processing_voice sec tbl = Some v"
  shows "(\<exists>r \<in> set tbl. section_id r = sec \<and> voice_id r = v \<and> status r = PROCESSING)
    \<and> fst (recover_audio url now sec tbl) = Recovered v
    \<and> length (snd (recover_audio url now sec tbl)) = length tbl
    \<and> (\<forall>i < length tbl. snd (recover_audio url now sec tbl) ! i =
          (if job_key (tbl ! i) = (sec, v) then complete_row url now (tbl ! i) else tbl ! i))
    \<and> (distinct (map job_key tbl) \<longrightarrow>
          (\<exists>!i. i < length tbl \<and> snd (recover_audio url now sec tbl) ! i \<noteq> tbl ! i))"
proof -
  let ?new = "snd (recover_audio url now sec tbl)"
  have new: "?new = update_complete url now sec v tbl"
    using assms by (simp add: recover_audio_def)
  have nth: "\<forall>i < length tbl. ?new ! i =
      (if job_key (tbl ! i) = (sec, v) then complete_row url now (tbl ! i) else tbl ! i)"
    unfolding new by (simp add: nth_update_complete job_key_def)
  obtain r where r: "r \<in> set tbl" "section_id r = sec" "voice_id r = v" "status r = PROCESSING"
    using select_processing_voice_SomeD [OF assms] by blast
  then obtain i where i: "i < length tbl" "tbl ! i = r"
    by (auto simp add: in_set_conv_nth)
  have changed: "?new ! i \<noteq> tbl ! i"
    using nth i r complete_row_changes [of r url now] by (simp add: job_key_def)
  have uniq: "\<exists>!i. i < length tbl \<and> ?new ! i \<noteq> tbl ! i" if d: "distinct (map job_key tbl)"
  proof (rule ex1I [of _ i])
    show "i < length tbl \<and> ?new ! i \<noteq> tbl ! i" using i changed by simp
  next
    fix j assume j: "j < length tbl \<and> ?new ! j \<noteq> tbl ! j"
    then have "job_key (tbl ! j) = (sec, v)" using nth by (auto split: if_splits)
    moreover have "job_key (tbl ! i) = (sec, v)" using i r by (simp add: job_key_def)
    ultimately have "map job_key tbl ! j = map job_key tbl ! i" using i j by simp
    moreover have "j < length (map job_key tbl)" "i < length (map job_key tbl)"
      using i j by simp_all
    ultimately show "j = i" using nth_eq_iff_index_eq [OF d] by blast
  qed
  show ?thesis
    using r new nth uniq assms by (auto simp add: recover_audio_def)
qed

text \<open>
  Two voices of one section are PROCESSING: the first stored one is completed, the
  other row is untouched.
\<close>

theorem force_complete_frame_witness:
  "select_processing_voice ''sec-1'' [stuck_job, stuck_job\<lparr>voice_id := ''v-2''\<rparr>] = Some ''v-1''
   \<and> recover_audio ''/audio/x.wav'' 301 ''sec-1'' [stuck_job, stuck_job\<lparr>voice_id := ''v-2''\<rparr>] =
       (Recovered ''v-1'',
        [complete_row ''/audio/x.wav'' 301 stuck_job, stuck_job\<lparr>voice_id := ''v-2''\<rparr>])"
proof -
  have sel: "select_processing_voice ''sec-1'' [stuck_job, stuck_job\<lparr>voice_id := ''v-2''\<rparr>]
      = Some ''v-1''"
    by (simp add: stuck_job_def)
  have "snd (recover_audio ''/audio/x.wav'' 301 ''sec-1'' [stuck_job, stuck_job\<lparr>voice_id := ''v-2''\<rparr>])
      = [complete_row ''/audio/x.wav'' 301 stuck_job, stuck_job\<lparr>voice_id := ''v-2''\<rparr>]"
    using force_complete_frame [OF sel, of "''/audio/x.wav''" 301]
    by (simp add: list_eq_iff_nth_eq All_less_Suc job_key_def stuck_job_def numeral_2_eq_2)
  moreover have "fst (recover_audio ''/audio/x.wav'' 301 ''sec-1''
      [stuck_job, stuck_job\<lparr>voice_id := ''v-2''\<rparr>]) = Recovered ''v-1''"
    using force_complete_frame [OF sel, of "''/audio/x.wav''" 301] by simp
  ultimately show ?thesis using sel by (simp add: prod_eq_iff)
qed

section \<open>Read, then write\<close>

lemma recover_audio_raced_id: "recover_audio_raced url now sec id tbl = recover_audio url now sec tbl"
  by (simp add: recover_audio_raced_def recover_audio_def split: option.splits)

lemma select_stuck_empty_iff:
  "select_stuck story secs tbl = [] \<longleftrightarrow>
     (\<forall>sa \<in> set tbl. \<not> (status sa = PROCESSING \<and> in_story story secs sa))"
proof -
  have "select_stuck story secs tbl = [] \<longleftrightarrow> (\<forall>s. s \<notin> set (select_stuck story secs tbl))"
    by (cases "select_stuck story secs tbl") auto
  then show ?thesis unfolding select_stuck_iff by blast
qed


lemma reset_stuck_audio_other_row:
  assumes "i < length tbl" and "section_id (tbl ! i) \<notin> set (select_stuck story secs tbl)"
  shows "snd (reset_stuck_audio clock story secs tbl) ! i = tbl ! i"
  using assms by (simp add: reset_stuck_audio_def Let_def reset_loop_untouched)




section \<open>Status changes made by the remedies\<close>

lemma key_row_is_processing:
  assumes "distinct (map job_key tbl)" and "select_processing_voice sec tbl = Some v"
    and "i < length tbl" and "job_key (tbl ! i) = (sec, v)"
  shows "status (tbl ! i) = PROCESSING"
proof -
  obtain r where r: "r \<in> set tbl" "section_id r = sec" "voice_id r = v" "status r = PROCESSING"
    using select_processing_voice_SomeD [OF assms(2)] by blast
  then obtain j where j: "j < length tbl" "tbl ! j = r"
    by (auto simp add: in_set_conv_nth)
  have "map job_key tbl ! i = map job_key tbl ! j"
    using assms(3,4) j r by (simp add: job_key_def)
  moreover have "i < length (map job_key tbl)" "j < length (map job_key tbl)"
    using assms(3) j by simp_all
  ultimately have "i = j" using nth_eq_iff_index_eq [OF assms(1)] by blast
  then show ?thesis using j r by simp
qed

lemma recover_audio_nth:
  "i < length tbl \<Longrightarrow> snd (recover_audio url now sec tbl) ! i =
     (case select_processing_voice sec tbl of
        None \<Rightarrow> tbl ! i
      | Some v \<Rightarrow> if job_key (tbl ! i) = (sec, v) then complete_row url now (tbl ! i) else tbl ! i)"
  by (simp add: recover_audio_def nth_update_complete job_key_def split: option.splits)




section \<open>The field discipline\<close>

text \<open>
  Claim C6, evaluated. The table holds a PROCESSING job and, for the same section under
  another voice, a COMPLETE job with its \<open>audio_url\<close>; both rows respect the field
  discipline. Force-fail on the story writes ERROR on both rows, its \<^verbatim>\<open>UPDATE\<close> naming
  the section only, and the second row is then an ERROR record that carries an
  \<open>audio_url\<close>.
\<close>

theorem force_fail_overwrites_completed_job:
  "list_all fields_match_status [stuck_job, done_job]
   \<and> snd (reset_stuck_audio (\<lambda>k. 301) ''story-1'' [sec_1] [stuck_job, done_job]) ! 1 =
       done_job\<lparr>status := ERROR, error := Some ''Processing timed out (reset by admin)'',
         updated_at := 301\<rparr>
   \<and> audio_url (snd (reset_stuck_audio (\<lambda>k. 301) ''story-1'' [sec_1] [stuck_job, done_job]) ! 1) =
       Some ''/audio/y.wav''
   \<and> \<not> list_all fields_match_status
         (snd (reset_stuck_audio (\<lambda>k. 301) ''story-1'' [sec_1] [stuck_job, done_job]))"
  by (simp add: reset_stuck_audio_def select_stuck_def update_error_def fail_row_def
      fields_match_status_def admin_message_def stuck_job_def done_job_def sec_1_def)

text \<open>
  Force-complete keeps the field discipline when the pair of section and voice is a
  key: the row it writes was PROCESSING, so it had no \<open>error\<close>.
\<close>

lemma recover_audio_keeps_fields:
  assumes "distinct (map job_key tbl)" and "list_all fields_match_status tbl"
  shows "list_all fields_match_status (snd (recover_audio url now sec tbl))"
proof -
  have len: "length (snd (recover_audio url now sec tbl)) = length tbl"
    by (simp add: recover_audio_def split: option.splits)
  have "fields_match_status (snd (recover_audio url now sec tbl) ! i)" if i: "i < length tbl" for i
  proof -
    have old: "fields_match_status (tbl ! i)"
      using assms(2) i by (simp add: list_all_length)
    show ?thesis
    proof (cases "select_processing_voice sec tbl")
      case None
      then show ?thesis using old i by (simp add: recover_audio_nth)
    next
      case (Some v)
      show ?thesis
      proof (cases "job_key (tbl ! i) = (sec, v)")
        case True
        then have "status (tbl ! i) = PROCESSING"
          using key_row_is_processing [OF assms(1) Some i] by simp
        then have "error (tbl ! i) = None" using old by (auto simp add: fields_match_status_def)
        then show ?thesis
          using Some True i by (simp add: recover_audio_nth complete_row_def fields_match_status_def)
      next
        case False
        then show ?thesis using Some old i by (simp add: recover_audio_nth)
      qed
    qed
  qed
  then show ?thesis using len by (simp add: list_all_length)
qed

section \<open>Idempotence of the remedies\<close>

lemma in_story_fail_row [simp]: "in_story story secs (fail_row t r) = in_story story secs r"
  by (simp add: in_story_def)

lemma reset_leaves_nothing_stuck:
  "select_stuck story secs (snd (reset_stuck_audio clock story secs tbl)) = []"
proof -
  let ?new = "snd (reset_stuck_audio clock story secs tbl)"
  have len: "length ?new = length tbl"
    by (simp add: reset_stuck_audio_def Let_def)
  have "\<not> (status sa = PROCESSING \<and> in_story story secs sa)" if mem: "sa \<in> set ?new" for sa
  proof
    assume st: "status sa = PROCESSING \<and> in_story story secs sa"
    obtain i where i: "i < length tbl" "?new ! i = sa"
      using mem len by (auto simp add: in_set_conv_nth)
    show False
    proof (cases "section_id (tbl ! i) \<in> set (select_stuck story secs tbl)")
      case True
      then have ne: "select_stuck story secs tbl \<noteq> []" by auto
      then have "?new = reset_loop clock 0 (select_stuck story secs tbl) tbl"
        by (simp add: reset_stuck_audio_def Let_def)
      then obtain j where "?new ! i = fail_row (clock j) (tbl ! i)"
        using reset_loop_touched [OF i(1) True, of clock 0] by auto
      then show False using st i by (simp add: fail_row_def)
    next
      case False
      then have "sa = tbl ! i" using reset_stuck_audio_other_row [OF i(1)] i by simp
      then have "section_id (tbl ! i) \<in> set (select_stuck story secs tbl)"
        unfolding select_stuck_iff using st i(1) nth_mem by blast
      with False show False by simp
    qed
  qed
  then show ?thesis by (simp add: select_stuck_empty_iff)
qed

lemma recover_second_call_other_voice:
  assumes "select_processing_voice sec tbl = Some v"
    and "select_processing_voice sec (update_complete url now sec v tbl) = Some v'"
  shows "v' \<noteq> v"
proof
  assume "v' = v"
  then obtain r where r: "r \<in> set (update_complete url now sec v tbl)"
      "section_id r = sec" "voice_id r = v" "status r = PROCESSING"
    using select_processing_voice_SomeD [OF assms(2)] by blast
  then obtain r0 where "r0 \<in> set tbl"
      "r = (if section_id r0 = sec \<and> voice_id r0 = v then complete_row url now r0 else r0)"
    by (auto simp add: update_complete_def)
  then show False using r by (auto simp add: complete_row_def split: if_splits)
qed

text \<open>
  Claim C7, evaluated. The job of voice \<open>v-2\<close> is already in ERROR, with the reason
  its worker recorded, and the job of voice \<open>v-1\<close> of the same section is stuck.
  Force-fail on the story is not a no-op for the job that is already in ERROR: its
  \<^verbatim>\<open>UPDATE\<close> names the section only and replaces the \<open>error\<close> and the \<open>updated_at\<close>
  of that job too.
\<close>

theorem force_fail_rewrites_failed_job:
  "status ([stuck_job, failed_job] ! 1) = ERROR
   \<and> error ([stuck_job, failed_job] ! 1) = Some ''synthesis failed''
   \<and> snd (reset_stuck_audio (\<lambda>k. 301) ''story-1'' [sec_1] [stuck_job, failed_job]) ! 1 =
       failed_job\<lparr>error := Some ''Processing timed out (reset by admin)'', updated_at := 301\<rparr>
   \<and> snd (reset_stuck_audio (\<lambda>k. 301) ''story-1'' [sec_1] [stuck_job, failed_job]) ! 1 \<noteq>
       [stuck_job, failed_job] ! 1"
  by (simp add: reset_stuck_audio_def select_stuck_def update_error_def fail_row_def
      admin_message_def stuck_job_def failed_job_def sec_1_def)

text \<open>
  What does hold of idempotence. A remedy invoked when its target has no PROCESSING
  row left changes nothing and reports that nothing was found, which is not an error.
  A second force-complete, with any location at any later time, leaves the record that
  the first one wrote exactly as the first left it, and is a no-op on the whole table
  when the section had no PROCESSING row under another voice. A second force-fail on
  the story is a no-op on the whole table.
\<close>

lemma remedies_idempotent:
  "((\<forall>r \<in> set tbl. section_id r = sec \<longrightarrow> status r \<noteq> PROCESSING) \<longrightarrow>
      recover_audio url now sec tbl = (NoProcessingEntry, tbl))
   \<and> ((\<forall>r \<in> set tbl. in_story story secs r \<longrightarrow> status r \<noteq> PROCESSING) \<longrightarrow>
      reset_stuck_audio clock story secs tbl = (NoStuckEntries, tbl))
   \<and> (\<forall>i < length tbl. select_processing_voice sec tbl = Some (voice_id (tbl ! i))
        \<and> section_id (tbl ! i) = sec \<longrightarrow>
      snd (recover_audio url2 now2 sec (snd (recover_audio url now sec tbl))) ! i =
        snd (recover_audio url now sec tbl) ! i)
   \<and> ((\<forall>r \<in> set tbl. section_id r = sec \<and> status r = PROCESSING \<longrightarrow> voice_id r = v) \<longrightarrow>
      recover_audio url2 now2 sec (snd (recover_audio url now sec tbl)) =
        (NoProcessingEntry, snd (recover_audio url now sec tbl)))
   \<and> reset_stuck_audio clock2 story secs (snd (reset_stuck_audio clock story secs tbl)) =
        (NoStuckEntries, snd (reset_stuck_audio clock story secs tbl))"
proof -
  have a: "(\<forall>r \<in> set tbl. section_id r = sec \<longrightarrow> status r \<noteq> PROCESSING) \<longrightarrow>
      recover_audio url now sec tbl = (NoProcessingEntry, tbl)"
  proof
    assume "\<forall>r \<in> set tbl. section_id r = sec \<longrightarrow> status r \<noteq> PROCESSING"
    then have "select_processing_voice sec tbl = None"
      by (simp add: select_processing_voice_None_iff)
    then show "recover_audio url now sec tbl = (NoProcessingEntry, tbl)"
      by (simp add: recover_audio_def)
  qed
  have b: "(\<forall>r \<in> set tbl. in_story story secs r \<longrightarrow> status r \<noteq> PROCESSING) \<longrightarrow>
      reset_stuck_audio clock story secs tbl = (NoStuckEntries, tbl)"
  proof
    assume "\<forall>r \<in> set tbl. in_story story secs r \<longrightarrow> status r \<noteq> PROCESSING"
    then have "select_stuck story secs tbl = []"
      unfolding select_stuck_empty_iff by blast
    then show "reset_stuck_audio clock story secs tbl = (NoStuckEntries, tbl)"
      by (simp add: reset_stuck_audio_def)
  qed
  have c: "snd (recover_audio url2 now2 sec (snd (recover_audio url now sec tbl))) ! i =
        snd (recover_audio url now sec tbl) ! i"
    if i: "i < length tbl" and sel: "select_processing_voice sec tbl = Some (voice_id (tbl ! i))"
      and sec: "section_id (tbl ! i) = sec" for i
  proof -
    let ?v = "voice_id (tbl ! i)"
    let ?t1 = "update_complete url now sec ?v tbl"
    have t1: "snd (recover_audio url now sec tbl) = ?t1"
      using sel by (simp add: recover_audio_def)
    have i1: "i < length ?t1" using i by simp
    have k1: "job_key (?t1 ! i) = (sec, ?v)"
      using i sec by (simp add: nth_update_complete job_key_def complete_row_def)
    show ?thesis
    proof (cases "select_processing_voice sec ?t1")
      case None
      then show ?thesis unfolding t1 by (simp add: recover_audio_def)
    next
      case (Some v')
      then have "v' \<noteq> ?v" using recover_second_call_other_voice [OF sel] by simp
      then show ?thesis
        unfolding t1 using Some k1 recover_audio_nth [OF i1, of url2 now2 sec] by simp
    qed
  qed
  have d: "(\<forall>r \<in> set tbl. section_id r = sec \<and> status r = PROCESSING \<longrightarrow> voice_id r = v) \<longrightarrow>
      recover_audio url2 now2 sec (snd (recover_audio url now sec tbl)) =
        (NoProcessingEntry, snd (recover_audio url now sec tbl))"
  proof
    assume one: "\<forall>r \<in> set tbl. section_id r = sec \<and> status r = PROCESSING \<longrightarrow> voice_id r = v"
    have "select_processing_voice sec (snd (recover_audio url now sec tbl)) = None"
    proof (cases "select_processing_voice sec tbl")
      case None
      then show ?thesis by (simp add: recover_audio_def)
    next
      case (Some w)
      obtain r1 where "r1 \<in> set tbl" "section_id r1 = sec" "status r1 = PROCESSING"
          "voice_id r1 = w"
        using select_processing_voice_SomeD [OF Some] by blast
      then have w: "v = w" using one by auto
      have "\<not> (section_id r = sec \<and> status r = PROCESSING)"
        if mem: "r \<in> set (update_complete url now sec w tbl)" for r
      proof -
        obtain r0 where r0: "r0 \<in> set tbl"
          and r: "r = (if section_id r0 = sec \<and> voice_id r0 = w
                then complete_row url now r0 else r0)"
          using mem by (auto simp add: update_complete_def)
        show ?thesis
        proof (cases "section_id r0 = sec \<and> voice_id r0 = w")
          case True
          then show ?thesis using r by (simp add: complete_row_def)
        next
          case False
          have "r = r0" unfolding r by (rule if_not_P [OF False])
          moreover have "section_id r0 = sec \<and> status r0 = PROCESSING \<longrightarrow> voice_id r0 = w"
            using one r0 w by simp
          ultimately show ?thesis using False by blast
        qed
      qed
      then show ?thesis
        using Some by (simp add: recover_audio_def select_processing_voice_None_iff)
    qed
    then show "recover_audio url2 now2 sec (snd (recover_audio url now sec tbl)) =
        (NoProcessingEntry, snd (recover_audio url now sec tbl))"
      by (simp add: recover_audio_def)
  qed
  have e: "reset_stuck_audio clock2 story secs (snd (reset_stuck_audio clock story secs tbl)) =
        (NoStuckEntries, snd (reset_stuck_audio clock story secs tbl))"
    using reset_leaves_nothing_stuck [of story secs clock tbl]
    by (simp add: reset_stuck_audio_def [of clock2])
  from a b c d e show ?thesis by blast
qed

lemma remedies_idempotent_example:
  "recover_audio ''/audio/x.wav'' 301 ''sec-1'' [done_job] = (NoProcessingEntry, [done_job])
   \<and> reset_stuck_audio (\<lambda>k. 301) ''story-1'' [sec_1] [done_job] = (NoStuckEntries, [done_job])
   \<and> snd (recover_audio ''/audio/z.wav'' 400 ''sec-1''
        (snd (recover_audio ''/audio/x.wav'' 301 ''sec-1'' [stuck_job]))) ! 0 =
       snd (recover_audio ''/audio/x.wav'' 301 ''sec-1'' [stuck_job]) ! 0
   \<and> recover_audio ''/audio/z.wav'' 400 ''sec-1''
        (snd (recover_audio ''/audio/x.wav'' 301 ''sec-1'' [stuck_job])) =
       (NoProcessingEntry, snd (recover_audio ''/audio/x.wav'' 301 ''sec-1'' [stuck_job]))
   \<and> reset_stuck_audio (\<lambda>k. 400) ''story-1'' [sec_1]
        (snd (reset_stuck_audio (\<lambda>k. 301) ''story-1'' [sec_1] [stuck_job])) =
       (NoStuckEntries, snd (reset_stuck_audio (\<lambda>k. 301) ''story-1'' [sec_1] [stuck_job]))"
proof -
  have h1: "\<forall>r \<in> set [done_job]. section_id r = ''sec-1'' \<longrightarrow> status r \<noteq> PROCESSING"
    by (simp add: done_job_def)
  have h2: "\<forall>r \<in> set [done_job]. in_story ''story-1'' [sec_1] r \<longrightarrow> status r \<noteq> PROCESSING"
    by (simp add: done_job_def)
  have h3: "select_processing_voice ''sec-1'' [stuck_job] = Some (voice_id ([stuck_job] ! 0))
      \<and> section_id ([stuck_job] ! 0) = ''sec-1''"
    by (simp add: stuck_job_def)
  have h4: "\<forall>r \<in> set [stuck_job]. section_id r = ''sec-1'' \<and> status r = PROCESSING \<longrightarrow>
      voice_id r = ''v-1''"
    by (simp add: stuck_job_def)
  show ?thesis
    using h1 h2
      remedies_idempotent [of "[done_job]" "''sec-1''" "''/audio/x.wav''" 301 "''story-1''"
        "[sec_1]" "\<lambda>k. 301" "''/audio/z.wav''" 400 "''v-1''" "\<lambda>k. 400"]
      h3 h4
      remedies_idempotent [of "[stuck_job]" "''sec-1''" "''/audio/x.wav''" 301 "''story-1''"
        "[sec_1]" "\<lambda>k. 301" "''/audio/z.wav''" 400 "''v-1''" "\<lambda>k. 400"]
    by simp
qed

section \<open>The query scripts return the stored rows of the story\<close>

lemma entry_index_narration_entry [simp]: "entry_index (narration_entry n) = sn_index n"
  by (simp add: entry_index_def narration_entry_def)

lemma check_story_audio_as_filter:
  assumes "distinct (map ss_id secs)"
  shows "check_story_audio story secs tbl = map audio_entry (filter (in_story story secs) tbl)"
proof -
  have one: "map (\<lambda>ss. audio_entry sa)
        (filter (\<lambda>ss. section_id sa = ss_id ss \<and> ss_story_id ss = story) secs)
      = (if in_story story secs sa then [audio_entry sa] else [])" for sa
    using join_one_section [OF assms, of "audio_entry sa" "section_id sa"
        "\<lambda>ss. ss_story_id ss = story"]
    by (simp add: in_story_def)
  show ?thesis
    unfolding check_story_audio_def one by (induction tbl) simp_all
qed

lemma check_story_audio_set:
  "set (check_story_audio story secs tbl) = audio_entry ` {sa \<in> set tbl. in_story story secs sa}"
  unfolding check_story_audio_def in_story_def list_ex_iff by fastforce

text \<open>
  Claim C8 as stated fails for the section-audio query: it returns one entry for each
  job row, not for each section, and in storage order. For a story with three sections
  whose jobs are stored in the order \<open>sec-3\<close>, \<open>sec-1\<close> (two voices), \<open>sec-2\<close>, it
  returns four entries, the one of the third section first.
\<close>

theorem check_story_audio_counterexample:
  "length three_sections = 3
   \<and> map section_index three_sections = [0, 1, 2]
   \<and> map fst (check_story_audio ''story-1'' three_sections three_section_jobs) =
       [''sec-3'', ''sec-1'', ''sec-1'', ''sec-2'']
   \<and> length (check_story_audio ''story-1'' three_sections three_section_jobs) \<noteq> 3"
  by (simp add: check_story_audio_def audio_entry_def three_sections_def three_section_jobs_def
      sec_1_def stuck_job_def done_job_def)

text \<open>
  Claim C8, amended. The narration query returns the narration rows of the story, one
  entry for each stored row (three entries for a story with three narration rows),
  ordered by ascending section or chunk index, not by creation time, each entry with
  the stored status of its row. The section-audio query returns one entry for each job
  row of the story's sections, with the stored status of that row.
\<close>

theorem query_scripts_entries:
  "sorted (map entry_index (check_story_narrations story ntbl))
   \<and> length (check_story_narrations story ntbl) = length (filter (\<lambda>n. sn_story_id n = story) ntbl)
   \<and> set (check_story_narrations story ntbl) =
       narration_entry ` {n \<in> set ntbl. sn_story_id n = story}
   \<and> set (check_story_audio story secs tbl) = audio_entry ` {sa \<in> set tbl. in_story story secs sa}
   \<and> (distinct (map ss_id secs) \<longrightarrow>
       length (check_story_audio story secs tbl) = length (filter (in_story story secs) tbl))"
proof -
  have "map entry_index (check_story_narrations story ntbl) =
      map sn_index (sort_key sn_index (filter (\<lambda>n. sn_story_id n = story) ntbl))"
    by (simp add: check_story_narrations_def comp_def)
  then have a: "sorted (map entry_index (check_story_narrations story ntbl))"
    by (simp only: sorted_sort_key)
  have b: "length (check_story_narrations story ntbl) =
      length (filter (\<lambda>n. sn_story_id n = story) ntbl)"
    by (simp add: check_story_narrations_def)
  have c: "set (check_story_narrations story ntbl) =
      narration_entry ` {n \<in> set ntbl. sn_story_id n = story}"
    by (simp add: check_story_narrations_def)
  have d: "distinct (map ss_id secs) \<longrightarrow>
      length (check_story_audio story secs tbl) = length (filter (in_story story secs) tbl)"
    by (simp add: check_story_audio_as_filter)
  from a b c d check_story_audio_set show ?thesis by blast
qed

theorem query_scripts_entries_witness:
  "distinct (map ss_id three_sections)
   \<and> map sn_created_at three_chunks = [10, 11, 12]
   \<and> sorted (map entry_index (check_story_narrations ''story-1'' three_chunks))
   \<and> map fst (check_story_narrations ''story-1'' three_chunks) = [''n-a'', ''n-b'', ''n-c'']
   \<and> length (check_story_narrations ''story-1'' three_chunks) = 3
   \<and> length (check_story_audio ''story-1'' three_sections three_section_jobs) = 4"
proof -
  have d: "distinct (map ss_id three_sections)"
    by (simp add: three_sections_def sec_1_def)
  have f: "filter (\<lambda>n. sn_story_id n = ''story-1'') three_chunks = three_chunks"
    by (simp add: three_chunks_def chunk_def)
  have g: "filter (in_story ''story-1'' three_sections) three_section_jobs = three_section_jobs"
    by (simp add: in_story_def three_sections_def three_section_jobs_def sec_1_def stuck_job_def
        done_job_def)
  have ids: "map fst (check_story_narrations ''story-1'' three_chunks) = [''n-a'', ''n-b'', ''n-c'']"
    by (simp add: check_story_narrations_def narration_entry_def three_chunks_def chunk_def)
  have len: "length three_chunks = 3" "length three_section_jobs = 4"
    by (simp_all add: three_chunks_def three_section_jobs_def)
  have cr: "map sn_created_at three_chunks = [10, 11, 12]"
    by (simp add: three_chunks_def chunk_def)
  show ?thesis
    using d f g ids len cr
      query_scripts_entries [of "''story-1''" three_chunks three_sections three_section_jobs]
    by simp
qed

section \<open>One active job for each key\<close>

lemma active_keys_map_subset:
  assumes "\<And>r. job_key (g r) = job_key r"
    and "\<And>r. non_terminal (status (g r)) \<Longrightarrow> non_terminal (status r)"
  shows "set (map job_key (filter (\<lambda>r. non_terminal (status r)) (map g tbl)))
    \<subseteq> set (map job_key (filter (\<lambda>r. non_terminal (status r)) tbl))"
proof
  fix k assume "k \<in> set (map job_key (filter (\<lambda>r. non_terminal (status r)) (map g tbl)))"
  then obtain r where r: "r \<in> set tbl" "non_terminal (status (g r))" "k = job_key (g r)"
    by auto
  then have "non_terminal (status r)" "k = job_key r" using assms by simp_all
  with r(1) show "k \<in> set (map job_key (filter (\<lambda>r. non_terminal (status r)) tbl))"
    by auto
qed

lemma one_active_map:
  assumes key: "\<And>r. job_key (g r) = job_key r"
    and st: "\<And>r. non_terminal (status (g r)) \<Longrightarrow> non_terminal (status r)"
  shows "one_active_per_key tbl \<Longrightarrow> one_active_per_key (map g tbl)"
proof (induction tbl)
  case Nil
  then show ?case by (simp add: one_active_per_key_def)
next
  case (Cons r rs)
  have rest: "one_active_per_key rs"
    using Cons.prems by (simp add: one_active_per_key_def split: if_splits)
  then have ih: "one_active_per_key (map g rs)" by (rule Cons.IH)
  show ?case
  proof (cases "non_terminal (status (g r))")
    case False
    then show ?thesis using ih by (simp add: one_active_per_key_def)
  next
    case True
    then have nt: "non_terminal (status r)" by (rule st)
    then have "job_key r \<notin> set (map job_key (filter (\<lambda>r. non_terminal (status r)) rs))"
      using Cons.prems by (simp add: one_active_per_key_def)
    then have "job_key (g r) \<notin> set (map job_key (filter (\<lambda>r. non_terminal (status r)) (map g rs)))"
      using active_keys_map_subset [of g rs, OF key st] key by auto
    then show ?thesis using True ih by (simp add: one_active_per_key_def)
  qed
qed

lemma one_active_update_complete:
  "one_active_per_key tbl \<Longrightarrow> one_active_per_key (update_complete url now sec v tbl)"
  unfolding update_complete_def
  by (rule one_active_map) (auto simp add: job_key_def complete_row_def non_terminal_def split: if_splits)

lemma one_active_update_error:
  "one_active_per_key tbl \<Longrightarrow> one_active_per_key (update_error now sec tbl)"
  unfolding update_error_def
  by (rule one_active_map) (auto simp add: job_key_def fail_row_def non_terminal_def split: if_splits)

lemma one_active_reset_loop:
  "one_active_per_key tbl \<Longrightarrow> one_active_per_key (reset_loop clock k rows tbl)"
  by (induction rows arbitrary: k tbl) (simp_all add: one_active_update_error)

lemma one_active_recover_audio:
  "one_active_per_key tbl \<Longrightarrow> one_active_per_key (snd (recover_audio url now sec tbl))"
  by (simp add: recover_audio_def one_active_update_complete split: option.splits)

lemma one_active_reset_stuck_audio:
  "one_active_per_key tbl \<Longrightarrow> one_active_per_key (snd (reset_stuck_audio clock story secs tbl))"
  by (simp add: reset_stuck_audio_def Let_def one_active_reset_loop)

lemma has_active_iff:
  "has_active target v tbl \<longleftrightarrow>
     (target, v) \<in> set (map job_key (filter (\<lambda>r. non_terminal (status r)) tbl))"
  by (auto simp add: has_active_def list_ex_iff job_key_def)

text \<open>
  Claim C9. \<open>create\<close> fails with \<open>DuplicateActiveJob\<close> exactly when a PENDING or
  PROCESSING job exists for the key; when every earlier job of the key is terminal it
  succeeds and adds a new record in PENDING next to them. So \<open>create\<close> keeps the
  table at one non-terminal job for each pair of target and voice at most, and so do
  the two recovery scripts.
\<close>

theorem create_duplicate_active:
  "(create now target v tbl = Inl DuplicateActiveJob \<longleftrightarrow>
      (\<exists>r \<in> set tbl. job_key r = (target, v) \<and> non_terminal (status r)))
   \<and> ((\<forall>r \<in> set tbl. job_key r = (target, v) \<longrightarrow> status r = COMPLETE \<or> status r = ERROR) \<longrightarrow>
      create now target v tbl = Inr (new_job now target v, tbl @ [new_job now target v]))
   \<and> status (new_job now target v) = PENDING
   \<and> job_key (new_job now target v) = (target, v)
   \<and> (one_active_per_key tbl \<longrightarrow>
      (\<forall>job tbl'. create now target v tbl = Inr (job, tbl') \<longrightarrow> one_active_per_key tbl'))
   \<and> (one_active_per_key tbl \<longrightarrow>
      one_active_per_key (snd (recover_audio url now2 sec tbl))
      \<and> one_active_per_key (snd (reset_stuck_audio clock story secs tbl)))"
proof -
  have act: "has_active target v tbl \<longleftrightarrow>
      (\<exists>r \<in> set tbl. job_key r = (target, v) \<and> non_terminal (status r))"
    by (auto simp add: has_active_def list_ex_iff job_key_def)
  have a: "create now target v tbl = Inl DuplicateActiveJob \<longleftrightarrow>
      (\<exists>r \<in> set tbl. job_key r = (target, v) \<and> non_terminal (status r))"
    unfolding act [symmetric] by (simp add: create_def)
  have b: "(\<forall>r \<in> set tbl. job_key r = (target, v) \<longrightarrow> status r = COMPLETE \<or> status r = ERROR) \<longrightarrow>
      create now target v tbl = Inr (new_job now target v, tbl @ [new_job now target v])"
  proof
    assume "\<forall>r \<in> set tbl. job_key r = (target, v) \<longrightarrow> status r = COMPLETE \<or> status r = ERROR"
    then have "\<not> has_active target v tbl"
      unfolding act by (auto simp add: non_terminal_def)
    then show "create now target v tbl = Inr (new_job now target v, tbl @ [new_job now target v])"
      by (simp add: create_def)
  qed
  have c: "status (new_job now target v) = PENDING" "job_key (new_job now target v) = (target, v)"
    by (simp_all add: new_job_def job_key_def)
  have d: "one_active_per_key tbl'" if inv: "one_active_per_key tbl"
    and cr: "create now target v tbl = Inr (job, tbl')" for job tbl'
  proof -
    have free: "\<not> has_active target v tbl" and tbl': "tbl' = tbl @ [new_job now target v]"
      using cr by (auto simp add: create_def split: if_splits)
    have "(target, v) \<notin> set (map job_key (filter (\<lambda>r. non_terminal (status r)) tbl))"
      using free by (simp only: has_active_iff not_False_eq_True)
    then show ?thesis
      using inv c unfolding tbl' one_active_per_key_def by (simp add: non_terminal_def)
  qed
  have d': "one_active_per_key tbl \<longrightarrow>
      (\<forall>job tbl'. create now target v tbl = Inr (job, tbl') \<longrightarrow> one_active_per_key tbl')"
    using d by (intro impI allI)
  have e: "one_active_per_key tbl \<longrightarrow>
      one_active_per_key (snd (recover_audio url now2 sec tbl))
      \<and> one_active_per_key (snd (reset_stuck_audio clock story secs tbl))"
    using one_active_recover_audio [of tbl url now2 sec]
      one_active_reset_stuck_audio [of tbl clock story secs]
    by (intro impI conjI)
  show ?thesis
    using a b c d' e by (intro conjI)
qed

theorem create_duplicate_active_witness:
  "create 5 ''sec-1'' ''v-1'' [stuck_job] = Inl DuplicateActiveJob
   \<and> create 5 ''sec-1'' ''v-2'' [stuck_job, done_job] =
       Inr (new_job 5 ''sec-1'' ''v-2'', [stuck_job, done_job, new_job 5 ''sec-1'' ''v-2''])
   \<and> one_active_per_key [stuck_job, done_job]
   \<and> one_active_per_key [stuck_job, done_job, new_job 5 ''sec-1'' ''v-2'']
   \<and> one_active_per_key (snd (recover_audio ''/audio/x.wav'' 301 ''sec-1'' [stuck_job, done_job]))
   \<and> one_active_per_key (snd (reset_stuck_audio (\<lambda>k. 301) ''story-1'' [sec_1] [stuck_job, done_job]))"
proof -
  have h1: "\<exists>r \<in> set [stuck_job]. job_key r = (''sec-1'', ''v-1'') \<and> non_terminal (status r)"
    by (simp add: stuck_job_def job_key_def non_terminal_def)
  have h2: "\<forall>r \<in> set [stuck_job, done_job]. job_key r = (''sec-1'', ''v-2'') \<longrightarrow>
      status r = COMPLETE \<or> status r = ERROR"
    by (simp add: stuck_job_def done_job_def job_key_def)
  have h3: "one_active_per_key [stuck_job, done_job]"
    by (simp add: one_active_per_key_def stuck_job_def done_job_def non_terminal_def)
  note t1 = create_duplicate_active [of 5 "''sec-1''" "''v-1''" "[stuck_job]"]
  note t2 = create_duplicate_active [of 5 "''sec-1''" "''v-2''" "[stuck_job, done_job]"
      "''/audio/x.wav''" 301 "''sec-1''" "\<lambda>k. 301" "''story-1''" "[sec_1]"]
  have c1: "create 5 ''sec-1'' ''v-1'' [stuck_job] = Inl DuplicateActiveJob"
    using h1 t1 [THEN conjunct1] by (rule iffD2 [rotated])
  have c2: "create 5 ''sec-1'' ''v-2'' [stuck_job, done_job] =
      Inr (new_job 5 ''sec-1'' ''v-2'', [stuck_job, done_job, new_job 5 ''sec-1'' ''v-2''])"
    using h2 t2 [THEN conjunct2, THEN conjunct1] by simp
  have c3: "one_active_per_key [stuck_job, done_job, new_job 5 ''sec-1'' ''v-2'']"
    using h3 c2 t2 [THEN conjunct2, THEN conjunct2, THEN conjunct2, THEN conjunct2, THEN conjunct1]
    by blast
  have c4: "one_active_per_key (snd (recover_audio ''/audio/x.wav'' 301 ''sec-1'' [stuck_job, done_job]))
      \<and> one_active_per_key
          (snd (reset_stuck_audio (\<lambda>k. 301) ''story-1'' [sec_1] [stuck_job, done_job]))"
    using h3 t2 [THEN conjunct2, THEN conjunct2, THEN conjunct2, THEN conjunct2, THEN conjunct2]
    by (rule rev_mp)
  show ?thesis
    using c1 c2 h3 c3 c4 by (intro conjI) simp_all
qed

end
